theory Spec2Isabelle
  imports Complex_Main
begin

section \<open>Data model\<close>

text \<open>
  The program is \<^verbatim>\<open>src/code/sample_usage.py\<close>: \<^verbatim>\<open>get_charge_array\<close> resolves a tariff
  table into per-timestamp rates and \<^verbatim>\<open>calculate_cost\<close> turns rates and consumption
  into a cost. Python floats are modelled by exact rationals: rounding and NaN are not
  part of the model. A field name of the structured array is the string \<^verbatim>\<open>str(limit)\<close>,
  read back by \<^verbatim>\<open>float(name)\<close>; the model keeps the number the name denotes (the name
  \<^verbatim>\<open>"0.0"\<close> is the key \<open>0\<close>), and a table is the list of its fields in the order of
  \<^verbatim>\<open>dtype.names\<close>. The consumption series has consecutive integer labels, so the label
  \<^verbatim>\<open>i + consumption_data.index[0]\<close> is the position \<open>i\<close>.
\<close>

type_synonym key = rat

text \<open>
  One field of the structured array: a vector of shape \<open>(n,)\<close> (energy) or a matrix of
  shape \<open>(n, k)\<close> (demand), kept as its list of \<open>k\<close> columns.
\<close>

datatype block = Vec "rat list" | Mat "rat list list"

type_synonym charge_table = "(key \<times> block) list"

text \<open>
  The exceptions of the two functions. \<open>UsageError\<close> is the \<^verbatim>\<open>ValueError\<close> that the
  source raises itself, with its message; the errors raised inside numpy and pandas are
  kept apart: \<open>ShapeError\<close> (operands of different shapes), \<open>EmptySequenceError\<close>
  (\<^verbatim>\<open>argmax\<close> of an empty array), \<open>KeyError\<close>, \<open>IndexError\<close> and
  \<open>UnboundLocalError\<close> (the loop variable \<^verbatim>\<open>i\<close> read before any iteration).
\<close>

datatype error =
    UsageError string
  | KeyError
  | IndexError
  | ShapeError
  | EmptySequenceError
  | UnboundLocalError

text \<open>A result passed on: an error stays the error, a value is mapped.\<close>

definition map_result :: "('a \<Rightarrow> 'b) \<Rightarrow> error + 'a \<Rightarrow> error + 'b" where
  "map_result f r = (case r of Inl e \<Rightarrow> Inl e | Inr x \<Rightarrow> Inr (f x))"

section \<open>numpy helpers\<close>

definition np_max :: "'a::linorder list \<Rightarrow> 'a" where
  "np_max xs = fold max (tl xs) (hd xs)"

definition np_min :: "'a::linorder list \<Rightarrow> 'a" where
  "np_min xs = fold min (tl xs) (hd xs)"

text \<open>\<^verbatim>\<open>np.argmax\<close>: the first position of the maximum.\<close>

definition np_argmax :: "rat list \<Rightarrow> nat" where
  "np_argmax xs = (let m = np_max xs in length (takeWhile (\<lambda>x. x \<noteq> m) xs))"

section \<open>calculate\_cost\<close>

subsection \<open>Demand path\<close>

text \<open>
  The body of the loop over the columns of one tier (source lines 185-196, and 198-207
  for a one-dimensional field). The product of the column and the consumption series
  needs equal lengths, and \<^verbatim>\<open>argmax\<close> a non-empty product; every length mismatch is
  the shape error (broadcasting of a length-one operand is not modelled).
\<close>

definition column_charge :: "key \<Rightarrow> key option \<Rightarrow> rat list \<Rightarrow> rat list \<Rightarrow> error + rat" where
  "column_charge name next_name col consumption_data =
     (if length col \<noteq> length consumption_data then Inl ShapeError
      else if consumption_data = [] then Inl EmptySequenceError
      else
        (let demand = consumption_data ! np_argmax (map2 (*) col consumption_data) in
         case next_name of
           Some nx \<Rightarrow>
             (if demand > nx then Inr (np_max (map (\<lambda>c. (nx - name) * c) col))
              else Inr (max (np_max (map (\<lambda>c. (demand - name) * c) col)) 0))
         | None \<Rightarrow> Inr (max (np_max (map (\<lambda>c. (demand - name) * c) col)) 0)))"

fun demand_columns :: "key \<Rightarrow> key option \<Rightarrow> rat list list \<Rightarrow> rat list \<Rightarrow> rat \<Rightarrow> error + rat" where
  "demand_columns name next_name [] consumption_data cost = Inr cost"
| "demand_columns name next_name (col # cols) consumption_data cost =
     (case column_charge name next_name col consumption_data of
        Inl e \<Rightarrow> Inl e
      | Inr c \<Rightarrow> demand_columns name next_name cols consumption_data (cost + c))"

text \<open>
  \<^verbatim>\<open>charges[name].shape[1]\<close> raises \<^verbatim>\<open>IndexError\<close> on a vector, and the handler
  treats the vector as the only column.
\<close>

definition columns_of :: "block \<Rightarrow> rat list list" where
  "columns_of blk = (case blk of Vec v \<Rightarrow> [v] | Mat cols \<Rightarrow> cols)"

definition next_name_of :: "charge_table \<Rightarrow> key option" where
  "next_name_of rest = (case rest of [] \<Rightarrow> None | (nx, _) # _ \<Rightarrow> Some nx)"

fun demand_tiers :: "charge_table \<Rightarrow> rat list \<Rightarrow> rat \<Rightarrow> error + rat" where
  "demand_tiers [] consumption_data cost = Inr cost"
| "demand_tiers ((name, blk) # rest) consumption_data cost =
     (case demand_columns name (next_name_of rest) (columns_of blk) consumption_data cost of
        Inl e \<Rightarrow> Inl e
      | Inr cost' \<Rightarrow> demand_tiers rest consumption_data cost')"

subsection \<open>Energy path\<close>

text \<open>\<^verbatim>\<open>len(charges[name])\<close>: the number of rows of the field.\<close>

definition block_len :: "block \<Rightarrow> nat" where
  "block_len blk = (case blk of Vec v \<Rightarrow> length v | Mat cols \<Rightarrow> (case cols of [] \<Rightarrow> 0 | c # _ \<Rightarrow> length c))"

text \<open>
  \<^verbatim>\<open>np.sum((consumption / divisor) * charges[name][a:b])\<close> for a slice of the series and
  the same slice of the field, given as the bounds \<open>a\<close> and \<open>b\<close> of the field's slice.
  pandas refuses the product of a series with a two-dimensional array and with a vector
  of another length.
\<close>

definition billed :: "rat \<Rightarrow> rat list \<Rightarrow> block \<Rightarrow> nat \<Rightarrow> nat \<Rightarrow> error + rat" where
  "billed divisor cs blk a b =
     (case blk of
        Mat _ \<Rightarrow> Inl ShapeError
      | Vec rs \<Rightarrow>
          (let rs' = take (b - a) (drop a rs) in
           if length cs = length rs' then Inr (sum_list (map2 (\<lambda>c r. c / divisor * r) cs rs'))
           else Inl ShapeError))"

text \<open>
  The inner loop \<^verbatim>\<open>for i in range(start_idx, len(charges[name]))\<close> up to its
  \<^verbatim>\<open>break\<close>: it returns the running total, the last value of \<^verbatim>\<open>i\<close> and whether the
  next tier's limit was crossed. Reading the series beyond its end is a \<^verbatim>\<open>KeyError\<close>.
\<close>

fun scan :: "rat list \<Rightarrow> rat \<Rightarrow> key \<Rightarrow> nat list \<Rightarrow> rat \<Rightarrow> nat option
    \<Rightarrow> error + (rat \<times> nat option \<times> bool)" where
  "scan consumption_data divisor next_name [] energy i = Inr (energy, i, False)"
| "scan consumption_data divisor next_name (k # ks) energy i =
     (if k < length consumption_data then
        (let energy' = energy + consumption_data ! k in
         if energy' / divisor > next_name then Inr (energy', Some k, True)
         else scan consumption_data divisor next_name ks energy' (Some k))
      else Inl KeyError)"

text \<open>
  The two additions to \<^verbatim>\<open>cost\<close> at the crossing sample \<open>k\<close> (source lines 231-250):
  the full samples before it and the part of it below the next tier's limit, both at this
  tier's rates.
\<close>

definition crossing :: "rat list \<Rightarrow> rat \<Rightarrow> key \<Rightarrow> block \<Rightarrow> rat \<Rightarrow> nat \<Rightarrow> nat \<Rightarrow> rat
    \<Rightarrow> error + rat" where
  "crossing consumption_data divisor next_name blk energy start_idx k cost =
     (case billed divisor (take (k - start_idx) (drop start_idx consumption_data)) blk start_idx k of
        Inl e \<Rightarrow> Inl e
      | Inr s \<Rightarrow>
          (case blk of
             Mat _ \<Rightarrow> Inl ShapeError
           | Vec rs \<Rightarrow>
               Inr (cost + s + (next_name - (energy - consumption_data ! k) / divisor) * rs ! k)))"

fun energy_tiers :: "charge_table \<Rightarrow> rat list \<Rightarrow> rat \<Rightarrow> rat \<Rightarrow> rat \<Rightarrow> nat \<Rightarrow> nat option
    \<Rightarrow> error + rat" where
  "energy_tiers [] consumption_data divisor cost energy start_idx i = Inr cost"
| "energy_tiers [(name, blk)] consumption_data divisor cost energy start_idx i =
     (case billed divisor (drop start_idx consumption_data) blk start_idx (block_len blk) of
        Inl e \<Rightarrow> Inl e
      | Inr s \<Rightarrow> Inr (cost + s))"
| "energy_tiers ((name, blk) # (next_name, nblk) # rest) consumption_data divisor cost energy start_idx i =
     (case scan consumption_data divisor next_name [start_idx ..< block_len blk] energy i of
        Inl e \<Rightarrow> Inl e
      | Inr (energy', i', crossed) \<Rightarrow>
          (case i' of
             None \<Rightarrow> Inl UnboundLocalError
           | Some k \<Rightarrow>
               (case (if crossed
                      then map_result (\<lambda>c. (c, Suc k))
                             (crossing consumption_data divisor next_name blk energy' start_idx k cost)
                      else Inr (cost, start_idx)) of
                  Inl e \<Rightarrow> Inl e
                | Inr (cost', start_idx') \<Rightarrow>
                    (if int k = int (block_len blk) - 1 then
                       (case billed divisor (drop start_idx' consumption_data) blk start_idx' (block_len blk) of
                          Inl e \<Rightarrow> Inl e
                        | Inr s \<Rightarrow> Inr (cost' + s))
                     else energy_tiers ((next_name, nblk) # rest) consumption_data divisor
                            cost' energy' start_idx' (Some k)))))"

definition calculate_cost :: "charge_table \<Rightarrow> rat list \<Rightarrow> string \<Rightarrow> string \<Rightarrow> error + rat" where
  "calculate_cost charges consumption_data charge_type util =
     (if charge_type = ''demand'' then demand_tiers charges consumption_data 0
      else if charge_type = ''energy'' then
        (if util = ''electric'' then energy_tiers charges consumption_data 4 0 0 0 None
         else if util = ''gas'' then energy_tiers charges consumption_data 96 0 0 0 None
         else Inl (UsageError (''Invalid utility: '' @ util)))
      else Inl (UsageError (''Invalid charge_type: '' @ charge_type)))"

section \<open>get\_charge\_array\<close>

text \<open>
  One row of \<^verbatim>\<open>rate_data\<close>; \<open>basic_charge_limit\<close> and \<open>charge\<close> are the imperial
  columns, the only ones the two functions read. The frame has the default integer index
  of \<^verbatim>\<open>pd.read_excel\<close>, so the index label of a row is its position.
\<close>

record rule =
  utility :: string
  type :: string
  period :: string
  basic_charge_limit :: rat
  month_start :: int
  month_end :: int
  hour_start :: rat
  hour_end :: rat
  weekday_start :: int
  weekday_end :: int
  charge :: rat

text \<open>What the source reads of one \<^verbatim>\<open>DateTime\<close> value.\<close>

record timestamp =
  month :: int
  weekday :: int
  hour :: int

text \<open>
  \<^verbatim>\<open>consumption_data\<close> as \<^verbatim>\<open>get_charge_array\<close> sees it: its number of rows and, when
  the column exists, the \<^verbatim>\<open>DateTime\<close> column, one value per row.
\<close>

datatype consumption_frame = WithDateTime "timestamp list" | WithoutDateTime nat

definition shape0 :: "consumption_frame \<Rightarrow> nat" where
  "shape0 f = (case f of WithDateTime ts \<Rightarrow> length ts | WithoutDateTime n \<Rightarrow> n)"

text \<open>
  The array returned: the plain array of customer charges, or the structured array with
  one field per limit.
\<close>

datatype charge_array = Flat "rat list" | Structured charge_table

text \<open>The two \<^verbatim>\<open>.loc\<close> filters of lines 68-69; each row keeps its index label.\<close>

definition filter_charges :: "rule list \<Rightarrow> string \<Rightarrow> string \<Rightarrow> (nat \<times> rule) list" where
  "filter_charges rate_data charge_type util =
     filter (\<lambda>(idx, c). utility c = util)
       (filter (\<lambda>(idx, c). type c = charge_type) (enumerate 0 rate_data))"

text \<open>
  Lines 76-78: the hour of each row plus \<^verbatim>\<open>np.tile(np.arange(4) / 4, 24 * ndays)\<close>. The
  in-place addition needs both arrays of one length.
\<close>

definition np_tile :: "'a list \<Rightarrow> nat \<Rightarrow> 'a list" where
  "np_tile xs reps = concat (replicate reps xs)"

definition fractional_hours :: "timestamp list \<Rightarrow> nat \<Rightarrow> error + rat list" where
  "fractional_hours ts ndays =
     (let hours = map (\<lambda>t. of_int (hour t)) ts;
          steps = np_tile [0, 1 / 4, 2 / 4, 3 / 4] (24 * ndays)
      in if length hours = length steps then Inr (map2 (+) hours steps) else Inl ShapeError)"

text \<open>Lines 104-111: the six range tests of one rule, for every row.\<close>

definition apply_charge :: "rule \<Rightarrow> int list \<Rightarrow> int list \<Rightarrow> rat list \<Rightarrow> bool list" where
  "apply_charge c months weekdays hours =
     map (\<lambda>(m, w, h).
            m \<ge> month_start c \<and> m \<le> month_end c
          \<and> w \<ge> weekday_start c \<and> w \<le> weekday_end c
          \<and> h \<ge> hour_start c \<and> h < hour_end c)
       (zip months (zip weekdays hours))"

text \<open>\<^verbatim>\<open>apply_charge * charge["charge (imperial)"]\<close>: the rate where the mask holds.\<close>

definition mask_times :: "bool list \<Rightarrow> rat \<Rightarrow> rat list" where
  "mask_times applies rate = map (\<lambda>b. if b then rate else 0) applies"

text \<open>
  The loop over the rules of one limit, demand case (lines 100-119). \<open>mn\<close> is
  \<^verbatim>\<open>min(limit_charges.index.values)\<close>; \<open>periods\<close> is the period column of all filtered
  rules; \<open>periods_seen\<close> is the dictionary and \<open>data\<close> the columns of the tier.
\<close>

fun demand_rows :: "(nat \<times> rule) list \<Rightarrow> nat \<Rightarrow> string list \<Rightarrow> int list \<Rightarrow> int list \<Rightarrow> rat list
    \<Rightarrow> (string \<rightharpoonup> nat \<times> bool list) \<Rightarrow> rat list list \<Rightarrow> error + rat list list" where
  "demand_rows [] mn periods months weekdays hours periods_seen data = Inr data"
| "demand_rows ((idx, c) # rows) mn periods months weekdays hours periods_seen data =
     (let idx_np = idx - mn in
      if idx_np \<ge> length periods then Inl IndexError
      else
        (let prd = periods ! idx_np;
             ac = apply_charge c months weekdays hours
         in case periods_seen prd of
              None \<Rightarrow>
                (if idx_np \<ge> length data then Inl IndexError
                 else demand_rows rows mn periods months weekdays hours
                        (periods_seen(prd \<mapsto> (idx_np, ac)))
                        (data[idx_np := mask_times ac (charge c)]))
            | Some (seen_idx, seen_mask) \<Rightarrow>
                (if seen_idx \<ge> length data then Inl IndexError
                 else demand_rows rows mn periods months weekdays hours periods_seen
                        (data[seen_idx := mask_times (map2 (\<or>) ac seen_mask) (charge c)]))))"

text \<open>The same loop, energy case (lines 100-111 and 121).\<close>

fun energy_rows :: "(nat \<times> rule) list \<Rightarrow> nat \<Rightarrow> string list \<Rightarrow> int list \<Rightarrow> int list \<Rightarrow> rat list
    \<Rightarrow> rat list \<Rightarrow> error + rat list" where
  "energy_rows [] mn periods months weekdays hours data = Inr data"
| "energy_rows ((idx, c) # rows) mn periods months weekdays hours data =
     (let idx_np = idx - mn in
      if idx_np \<ge> length periods then Inl IndexError
      else energy_rows rows mn periods months weekdays hours
             (map2 (+) data (mask_times (apply_charge c months weekdays hours) (charge c))))"

text \<open>\<^verbatim>\<open>charge_array.size\<close>: the number of cells of the array.\<close>

definition array_size :: "charge_table \<Rightarrow> nat" where
  "array_size arr =
     (case arr of
        [] \<Rightarrow> 0
      | (_, blk) # _ \<Rightarrow> (case blk of Vec v \<Rightarrow> length v | Mat cols \<Rightarrow> length (concat cols)))"

text \<open>
  Lines 122-132: the first tier makes the array, whose shape every later field takes;
  a later tier's \<open>data\<close> is broadcast to it, which numpy allows for a matrix with as many
  columns or with one column. An array of size 0 is replaced, not extended.
\<close>

definition add_field :: "charge_table \<Rightarrow> key \<Rightarrow> block \<Rightarrow> error + charge_table" where
  "add_field charge_array limit data =
     (if array_size charge_array = 0 then Inr [(limit, data)]
      else
        (case (snd (hd charge_array), data) of
           (Vec v, Vec d) \<Rightarrow>
             (if length d = length v then Inr (charge_array @ [(limit, Vec d)])
              else Inl ShapeError)
         | (Mat cols, Mat d) \<Rightarrow>
             (if length d = length cols then Inr (charge_array @ [(limit, Mat d)])
              else if length d = 1
                then Inr (charge_array @ [(limit, Mat (replicate (length cols) (hd d)))])
              else Inl ShapeError)
         | _ \<Rightarrow> Inl ShapeError))"

text \<open>\<^verbatim>\<open>np.unique\<close>: the distinct values, ascending.\<close>

definition np_unique :: "rat list \<Rightarrow> rat list" where
  "np_unique xs = sort (remdups xs)"

text \<open>
  The \<open>data\<close> of one limit (lines 95-121): a matrix with one column per rule of the
  limit for demand, a vector for energy. \<^verbatim>\<open>min(limit_charges.index.values)\<close> is read
  inside the loop over the rules only, so it is never taken of an empty index.
\<close>

definition tier_data :: "(nat \<times> rule) list \<Rightarrow> string \<Rightarrow> nat \<Rightarrow> string list
    \<Rightarrow> int list \<Rightarrow> int list \<Rightarrow> rat list \<Rightarrow> error + block" where
  "tier_data limit_charges charge_type ndays periods months weekdays hours =
     (let mn = np_min (map fst limit_charges)
      in if charge_type = ''demand''
         then map_result Mat
                (demand_rows limit_charges mn periods months weekdays hours Map.empty
                   (replicate (length limit_charges) (replicate (ndays * 96) 0)))
         else map_result Vec
                (energy_rows limit_charges mn periods months weekdays hours
                   (replicate (ndays * 96) 0)))"

text \<open>The loop over the limits (lines 93-132).\<close>

fun tiers_loop :: "key list \<Rightarrow> (nat \<times> rule) list \<Rightarrow> string \<Rightarrow> nat \<Rightarrow> string list
    \<Rightarrow> int list \<Rightarrow> int list \<Rightarrow> rat list \<Rightarrow> charge_table \<Rightarrow> error + charge_table" where
  "tiers_loop [] charges charge_type ndays periods months weekdays hours charge_array =
     Inr charge_array"
| "tiers_loop (limit # limits) charges charge_type ndays periods months weekdays hours charge_array =
     (let limit_charges = filter (\<lambda>(idx, c). basic_charge_limit c = limit) charges
      in case tier_data limit_charges charge_type ndays periods months weekdays hours of
           Inl e \<Rightarrow> Inl e
         | Inr data \<Rightarrow>
             (case add_field charge_array limit data of
                Inl e \<Rightarrow> Inl e
              | Inr charge_array' \<Rightarrow>
                  tiers_loop limits charges charge_type ndays periods months weekdays hours
                    charge_array'))"

definition get_charge_array :: "consumption_frame \<Rightarrow> rule list \<Rightarrow> string \<Rightarrow> string
    \<Rightarrow> error + charge_array" where
  "get_charge_array consumption_data rate_data charge_type util =
     (let ndays = shape0 consumption_data div 96;
          charges = filter_charges rate_data charge_type util
      in if charge_type = ''customer'' then Inr (Flat (map (\<lambda>(idx, c). charge c) charges))
         else
           (let periods = map (\<lambda>(idx, c). period c) charges;
                charge_limits = map (\<lambda>(idx, c). basic_charge_limit c) charges
            in case consumption_data of
                 WithoutDateTime _ \<Rightarrow> Inl KeyError
               | WithDateTime ts \<Rightarrow>
                   (case fractional_hours ts ndays of
                      Inl e \<Rightarrow> Inl e
                    | Inr hours \<Rightarrow>
                        (let weekdays = map weekday ts; months = map month ts in
                         if charge_type = ''demand'' \<and> charges = []
                           then Inr (Structured [(0, Mat [replicate (ndays * 96) 0])])
                         else if charge_type = ''energy'' \<and> charges = []
                           then Inr (Structured [(0, Vec (replicate (ndays * 96) 0))])
                         else if charge_type \<noteq> ''demand'' \<and> charge_type \<noteq> ''energy''
                           then Inl (UsageError (''Invalid charge_type: '' @ charge_type))
                         else map_result Structured
                                (tiers_loop (np_unique charge_limits) charges charge_type ndays
                                   periods months weekdays hours [])))))"

text \<open>A result is the usage error: the \<^verbatim>\<open>ValueError\<close> of line 90, 214 or 262.\<close>

definition is_usage_error :: "error + 'a \<Rightarrow> bool" where
  "is_usage_error r = (case r of Inl (UsageError _) \<Rightarrow> True | _ \<Rightarrow> False)"


text \<open>
  An input for the examples: the 96 timestamps of one day at the cadence of 15 minutes,
  all of one month and weekday, with the hours 0 to 23, four rows each.
\<close>

definition one_day :: "int \<Rightarrow> int \<Rightarrow> timestamp list" where
  "one_day m w = concat (map (\<lambda>h. replicate 4 \<lparr>month = m, weekday = w, hour = int h\<rparr>) [0 ..< 24])"

section \<open>Properties of calculate\_cost\<close>

lemma map_result_simps [simp]:
  "map_result f (Inl e) = Inl e"
  "map_result f (Inr x) = Inr (f x)"
  by (simp_all add: map_result_def)

subsection \<open>The errors each path can raise\<close>

lemma column_charge_error:
  "column_charge name nx col cons = Inl e \<Longrightarrow> e = ShapeError \<or> e = EmptySequenceError"
  by (auto simp: column_charge_def Let_def split: if_splits option.splits)

lemma demand_columns_error:
  "demand_columns name nx cols cons cost = Inl e \<Longrightarrow> e = ShapeError \<or> e = EmptySequenceError"
  by (induction cols arbitrary: cost) (auto split: sum.splits dest: column_charge_error)

lemma demand_tiers_error:
  "demand_tiers charges cons cost = Inl e \<Longrightarrow> e = ShapeError \<or> e = EmptySequenceError"
proof (induction charges arbitrary: cost)
  case Nil
  then show ?case by simp
next
  case (Cons t charges)
  obtain name blk where t: "t = (name, blk)" by (cases t)
  from Cons.prems show ?case
    unfolding t by (auto split: sum.splits dest: Cons.IH demand_columns_error)
qed

lemma billed_error: "billed d cs blk a b = Inl e \<Longrightarrow> e = ShapeError"
  by (auto simp: billed_def Let_def split: block.splits if_splits)

lemma crossing_error: "crossing cons d nx blk en s k c = Inl e \<Longrightarrow> e = ShapeError"
  by (auto simp: crossing_def split: sum.splits block.splits dest: billed_error)

lemma scan_error: "scan cons d nx ks en i = Inl e \<Longrightarrow> e = KeyError"
  by (induction ks arbitrary: en i) (auto simp: Let_def split: if_splits)

lemma energy_tiers_error:
  "energy_tiers charges cons d c en s i = Inl e
   \<Longrightarrow> e = ShapeError \<or> e = KeyError \<or> e = UnboundLocalError"
proof (induction charges cons d c en s i rule: energy_tiers.induct)
  case (1 cons d c en s i)
  then show ?case by simp
next
  case (2 name blk cons d c en s i)
  then show ?case by (auto split: sum.splits dest: billed_error)
next
  case (3 name blk next_name nblk rest cons d c en s i)
  show ?case
  proof (cases "scan cons d next_name [s ..< block_len blk] en i")
    case (Inl e')
    then show ?thesis using "3.prems" scan_error [OF Inl] by simp
  next
    case (Inr r)
    obtain en' i' crossed where r: "r = (en', i', crossed)" by (cases r)
    show ?thesis
    proof (cases i')
      case None
      then show ?thesis using "3.prems" Inr r by simp
    next
      case (Some k)
      show ?thesis
      proof (cases "if crossed then map_result (\<lambda>c. (c, Suc k)) (crossing cons d next_name blk en' s k c)
                    else Inr (c, s)")
        case (Inl e')
        then have "e' = ShapeError"
          by (auto simp: map_result_def split: if_splits sum.splits dest: crossing_error)
        then show ?thesis using "3.prems" Inr r Some Inl by simp
      next
        case inner: (Inr q)
        obtain c' s' where q: "q = (c', s')" by (cases q)
        show ?thesis
        proof (cases "int k = int (block_len blk) - 1")
          case True
          then show ?thesis
            using "3.prems" Inr r Some inner q
            by (simp split: sum.splits) (auto dest: billed_error)
        next
          case False
          have "energy_tiers ((name, blk) # (next_name, nblk) # rest) cons d c en s i
              = energy_tiers ((next_name, nblk) # rest) cons d c' en' s' (Some k)"
            using False Inr r Some inner q
            by (simp del: energy_tiers.simps(2) add: Let_def)
          with "3.prems"
          have rec: "energy_tiers ((next_name, nblk) # rest) cons d c' en' s' (Some k) = Inl e"
            by (simp del: energy_tiers.simps)
          show ?thesis
            by (rule "3.IH" [OF Inr r [symmetric] refl Some inner q [symmetric] False rec])
        qed
      qed
    qed
  qed
qed

lemma is_usage_error_iff: "is_usage_error r = (\<exists>m. r = Inl (UsageError m))"
  by (auto simp: is_usage_error_def split: sum.splits error.splits)

lemma cost_usage_error:
  "is_usage_error (calculate_cost charges cons charge_type util)
     = (charge_type \<noteq> ''demand'' \<and> charge_type \<noteq> ''energy''
        \<or> charge_type = ''energy'' \<and> util \<noteq> ''electric'' \<and> util \<noteq> ''gas'')"
  by (auto simp: is_usage_error_iff calculate_cost_def dest: demand_tiers_error energy_tiers_error)


subsection \<open>The cost of a demand table, column by column\<close>

lemma demand_columns_shift:
  "demand_columns name nx cols cons (a + c) = map_result ((+) a) (demand_columns name nx cols cons c)"
proof (induction cols arbitrary: c)
  case Nil
  show ?case by simp
next
  case (Cons col cols)
  show ?case
  proof (cases "column_charge name nx col cons")
    case (Inl e)
    then show ?thesis by simp
  next
    case (Inr x)
    then show ?thesis using Cons.IH [of "c + x"] by (simp add: add.assoc)
  qed
qed

lemma demand_tiers_shift:
  "demand_tiers charges cons (a + c) = map_result ((+) a) (demand_tiers charges cons c)"
proof (induction charges arbitrary: c)
  case Nil
  show ?case by simp
next
  case (Cons t charges)
  obtain name blk where t: "t = (name, blk)" by (cases t)
  show ?case
  proof (cases "demand_columns name (next_name_of charges) (columns_of blk) cons c")
    case (Inl e)
    then show ?thesis by (simp add: t demand_columns_shift)
  next
    case (Inr x)
    then show ?thesis using Cons.IH [of x] by (simp add: t demand_columns_shift)
  qed
qed

lemma demand_columns_append:
  "demand_columns name nx (xs @ ys) cons c
     = (case demand_columns name nx xs cons c of
          Inl e \<Rightarrow> Inl e
        | Inr c' \<Rightarrow> demand_columns name nx ys cons c')"
  by (induction xs arbitrary: c) (auto split: sum.splits)

lemma demand_columns_insert:
  assumes "column_charge name nx col cons = Inr x"
  shows "demand_columns name nx (pre @ col # post) cons c
       = map_result ((+) x) (demand_columns name nx (pre @ post) cons c)"
proof (cases "demand_columns name nx pre cons c")
  case (Inl e)
  then show ?thesis by (simp add: demand_columns_append)
next
  case (Inr c')
  then show ?thesis
    using assms demand_columns_shift [of name nx post cons x c']
    by (simp add: demand_columns_append add.commute)
qed

lemma next_name_of_append: "next_name_of (before @ (name, b) # rest) = next_name_of (before @ (name, b') # rest)"
  by (cases before) (auto simp: next_name_of_def)

lemma demand_tiers_insert:
  assumes "column_charge name (next_name_of rest) col cons = Inr x"
  shows "demand_tiers (before @ (name, Mat (pre @ col # post)) # rest) cons c
       = map_result ((+) x) (demand_tiers (before @ (name, Mat (pre @ post)) # rest) cons c)"
proof (induction before arbitrary: c)
  case Nil
  show ?case
  proof (cases "demand_columns name (next_name_of rest) (pre @ post) cons c")
    case (Inl e)
    then show ?thesis by (simp add: columns_of_def demand_columns_insert [OF assms])
  next
    case (Inr c')
    then show ?thesis
      using demand_tiers_shift [of rest cons x c']
      by (simp add: columns_of_def demand_columns_insert [OF assms])
  qed
next
  case (Cons t before)
  obtain n b where t: "t = (n, b)" by (cases t)
  have nn: "next_name_of (before @ (name, Mat (pre @ col # post)) # rest)
          = next_name_of (before @ (name, Mat (pre @ post)) # rest)"
    by (rule next_name_of_append)
  show ?case
    by (cases "demand_columns n (next_name_of (before @ (name, Mat (pre @ post)) # rest)) (columns_of b) cons c")
       (simp_all add: t nn Cons.IH)
qed


section \<open>Properties of get\_charge\_array\<close>

lemma length_np_tile: "length (np_tile xs k) = k * length xs"
  by (induction k) (simp_all add: np_tile_def)

lemma fractional_hours_cases:
  "fractional_hours ts ndays =
     (if length ts = 96 * ndays
      then Inr (map2 (+) (map (\<lambda>t. of_int (hour t)) ts) (np_tile [0, 1 / 4, 2 / 4, 3 / 4] (24 * ndays)))
      else Inl ShapeError)"
  by (simp add: fractional_hours_def Let_def length_np_tile)

lemma demand_rows_error: "demand_rows rows mn ps ms ws hs seen data = Inl e \<Longrightarrow> e = IndexError"
proof (induction rows arbitrary: seen data)
  case Nil
  then show ?case by simp
next
  case (Cons row rows)
  obtain idx c where row: "row = (idx, c)" by (cases row)
  from Cons.prems show ?case
    unfolding row
    by (auto simp: Let_def split: if_splits option.splits dest: Cons.IH)
qed

lemma energy_rows_error: "energy_rows rows mn ps ms ws hs data = Inl e \<Longrightarrow> e = IndexError"
proof (induction rows arbitrary: data)
  case Nil
  then show ?case by simp
next
  case (Cons row rows)
  obtain idx c where row: "row = (idx, c)" by (cases row)
  from Cons.prems show ?case
    unfolding row
    by (auto simp: Let_def split: if_splits dest: Cons.IH)
qed

lemma add_field_error: "add_field arr limit data = Inl e \<Longrightarrow> e = ShapeError"
  by (auto simp: add_field_def split: if_splits block.splits prod.splits)

lemma tier_data_error:
  "tier_data rows ct ndays ps ms ws hs = Inl e \<Longrightarrow> e = IndexError"
  by (auto simp: tier_data_def map_result_def Let_def split: if_splits sum.splits
           dest: demand_rows_error energy_rows_error)

lemma tiers_loop_error:
  "tiers_loop limits charges ct ndays ps ms ws hs arr = Inl e \<Longrightarrow> e = IndexError \<or> e = ShapeError"
proof (induction limits arbitrary: arr)
  case Nil
  then show ?case by simp
next
  case (Cons limit limits)
  from Cons.prems show ?case
    by (auto simp: Let_def split: sum.splits dest: tier_data_error add_field_error Cons.IH)
qed

text \<open>The function on a frame with the timestamp column, by charge type.\<close>

lemma whole_days: "(length ts = 96 * (length ts div 96)) = (length ts mod 96 = 0)"
proof
  assume "length ts = 96 * (length ts div 96)"
  then have "96 dvd length ts" by (metis dvd_triv_left)
  then show "length ts mod 96 = 0" by (simp add: mod_eq_0_iff_dvd)
next
  assume "length ts mod 96 = 0"
  then have "96 dvd length ts" by (simp add: mod_eq_0_iff_dvd)
  then show "length ts = 96 * (length ts div 96)" by simp
qed

lemma get_charge_array_customer:
  "get_charge_array f rate_data ''customer'' util
     = Inr (Flat (map (\<lambda>(idx, c). charge c) (filter_charges rate_data ''customer'' util)))"
  by (simp add: get_charge_array_def Let_def)

lemma get_charge_array_no_column:
  "charge_type \<noteq> ''customer''
   \<Longrightarrow> get_charge_array (WithoutDateTime n) rate_data charge_type util = Inl KeyError"
  by (simp add: get_charge_array_def Let_def)

lemma get_charge_array_part_day:
  "charge_type \<noteq> ''customer'' \<Longrightarrow> length ts mod 96 \<noteq> 0
   \<Longrightarrow> get_charge_array (WithDateTime ts) rate_data charge_type util = Inl ShapeError"
  by (simp add: get_charge_array_def Let_def shape0_def fractional_hours_cases whole_days)

lemma get_charge_array_invalid:
  "charge_type \<noteq> ''customer'' \<Longrightarrow> charge_type \<noteq> ''demand'' \<Longrightarrow> charge_type \<noteq> ''energy''
   \<Longrightarrow> length ts mod 96 = 0
   \<Longrightarrow> get_charge_array (WithDateTime ts) rate_data charge_type util
       = Inl (UsageError (''Invalid charge_type: '' @ charge_type))"
  by (simp add: get_charge_array_def Let_def shape0_def fractional_hours_cases whole_days)

lemma get_charge_array_empty:
  assumes "charge_type = ''demand'' \<or> charge_type = ''energy''"
    and "length ts mod 96 = 0"
    and "filter_charges rate_data charge_type util = []"
  shows "get_charge_array (WithDateTime ts) rate_data charge_type util
       = Inr (Structured [(0, if charge_type = ''demand'' then Mat [replicate (length ts) 0]
                              else Vec (replicate (length ts) 0))])"
proof -
  have n: "length ts div 96 * 96 = length ts"
    using assms(2) by (simp add: mod_eq_0_iff_dvd)
  from assms(1) show ?thesis
  proof
    assume "charge_type = ''demand''"
    then show ?thesis
      using assms(2,3)
      by (simp add: get_charge_array_def Let_def shape0_def fractional_hours_cases whole_days n)
  next
    assume "charge_type = ''energy''"
    then show ?thesis
      using assms(2,3)
      by (simp add: get_charge_array_def Let_def shape0_def fractional_hours_cases whole_days n)
  qed
qed

lemma get_charge_array_tiers:
  assumes "charge_type = ''demand'' \<or> charge_type = ''energy''"
    and "length ts mod 96 = 0"
    and "filter_charges rate_data charge_type util \<noteq> []"
  shows "get_charge_array (WithDateTime ts) rate_data charge_type util
       = map_result Structured
           (tiers_loop
              (np_unique (map (\<lambda>(idx, c). basic_charge_limit c) (filter_charges rate_data charge_type util)))
              (filter_charges rate_data charge_type util) charge_type (length ts div 96)
              (map (\<lambda>(idx, c). period c) (filter_charges rate_data charge_type util))
              (map month ts) (map weekday ts)
              (map2 (+) (map (\<lambda>t. of_int (hour t)) ts)
                 (np_tile [0, 1 / 4, 2 / 4, 3 / 4] (24 * (length ts div 96))))
              [])"
  using assms(1)
proof
  assume "charge_type = ''demand''"
  then show ?thesis
    using assms(2,3)
    by (simp add: get_charge_array_def Let_def shape0_def fractional_hours_cases whole_days)
next
  assume "charge_type = ''energy''"
  then show ?thesis
    using assms(2,3)
    by (simp add: get_charge_array_def Let_def shape0_def fractional_hours_cases whole_days)
qed

text \<open>The errors of the function on a frame with the timestamp column and a valid charge type.\<close>

lemma get_charge_array_error:
  assumes "charge_type = ''demand'' \<or> charge_type = ''energy''"
    and "get_charge_array (WithDateTime ts) rate_data charge_type util = Inl e"
  shows "e = IndexError \<or> e = ShapeError"
proof (cases "length ts mod 96 = 0")
  case False
  then show ?thesis
    using assms get_charge_array_part_day [of charge_type ts rate_data util] by auto
next
  case True
  show ?thesis
  proof (cases "filter_charges rate_data charge_type util = []")
    case True
    then show ?thesis
      using assms get_charge_array_empty [OF assms(1) \<open>length ts mod 96 = 0\<close> True] by simp
  next
    case False
    from assms(2) show ?thesis
      unfolding get_charge_array_tiers [OF assms(1) True False]
      by (auto simp: map_result_def split: sum.splits dest: tiers_loop_error)
  qed
qed

lemma resolve_usage_error:
  "is_usage_error (get_charge_array f rate_data charge_type util)
     = (charge_type \<noteq> ''customer'' \<and> charge_type \<noteq> ''demand'' \<and> charge_type \<noteq> ''energy''
        \<and> (case f of WithDateTime ts \<Rightarrow> length ts mod 96 = 0 | WithoutDateTime n \<Rightarrow> False))"
proof (cases "charge_type = ''customer''")
  case True
  then show ?thesis by (simp add: get_charge_array_customer is_usage_error_iff)
next
  case nc: False
  show ?thesis
  proof (cases f)
    case (WithoutDateTime n)
    then show ?thesis using nc by (simp add: get_charge_array_no_column is_usage_error_iff)
  next
    case (WithDateTime ts)
    show ?thesis
    proof (cases "charge_type = ''demand'' \<or> charge_type = ''energy''")
      case True
      have "get_charge_array (WithDateTime ts) rate_data charge_type util \<noteq> Inl (UsageError m)" for m
        using get_charge_array_error [OF True, of ts rate_data util "UsageError m"] by auto
      then show ?thesis using True WithDateTime by (auto simp: is_usage_error_iff)
    next
      case False
      then have v: "charge_type \<noteq> ''demand''" "charge_type \<noteq> ''energy''" by simp_all
      show ?thesis
      proof (cases "length ts mod 96 = 0")
        case True
        then show ?thesis
          using nc v WithDateTime by (simp add: get_charge_array_invalid is_usage_error_iff)
      next
        case False
        then show ?thesis
          using nc v WithDateTime by (simp add: get_charge_array_part_day is_usage_error_iff)
      qed
    qed
  qed
qed


lemma resolve_key_error:
  "(get_charge_array f rate_data charge_type util = Inl KeyError)
     = (charge_type \<noteq> ''customer'' \<and> (\<exists>n. f = WithoutDateTime n))"
proof (cases "charge_type = ''customer''")
  case True
  then show ?thesis by (simp add: get_charge_array_customer)
next
  case nc: False
  show ?thesis
  proof (cases f)
    case (WithoutDateTime n)
    then show ?thesis using nc by (simp add: get_charge_array_no_column)
  next
    case (WithDateTime ts)
    show ?thesis
    proof (cases "charge_type = ''demand'' \<or> charge_type = ''energy''")
      case True
      have "get_charge_array (WithDateTime ts) rate_data charge_type util \<noteq> Inl KeyError"
        using get_charge_array_error [OF True, of ts rate_data util KeyError] by auto
      then show ?thesis using WithDateTime by simp
    next
      case False
      then have v: "charge_type \<noteq> ''demand''" "charge_type \<noteq> ''energy''" by simp_all
      show ?thesis
      proof (cases "length ts mod 96 = 0")
        case True
        then show ?thesis
          using nc v WithDateTime by (simp add: get_charge_array_invalid)
      next
        case False
        then show ?thesis
          using nc v WithDateTime by (simp add: get_charge_array_part_day)
      qed
    qed
  qed
qed

subsection \<open>Maxima\<close>



lemma charges_of_filter:
  "map (\<lambda>(idx, c). f c) (filter_charges rate_data charge_type util)
     = map f (filter (\<lambda>c. type c = charge_type \<and> utility c = util) rate_data)"
proof -
  have "map (\<lambda>(idx, c). f c)
          (filter (\<lambda>(idx, c). utility c = util)
             (filter (\<lambda>(idx, c). type c = charge_type) (enumerate n rate_data)))
      = map f (filter (\<lambda>c. type c = charge_type \<and> utility c = util) rate_data)" for n
    by (induction rate_data arbitrary: n) auto
  then show ?thesis by (simp add: filter_charges_def)
qed

subsection \<open>The fractional hour and the mask of a rule\<close>

lemma nth_np_tile: "p < k * length xs \<Longrightarrow> np_tile xs k ! p = xs ! (p mod length xs)"
proof (induction k arbitrary: p)
  case 0
  then show ?case by simp
next
  case (Suc k)
  have unfold: "np_tile xs (Suc k) = xs @ np_tile xs k"
    by (simp add: np_tile_def)
  show ?case
  proof (cases "p < length xs")
    case True
    then show ?thesis by (simp add: unfold nth_append)
  next
    case False
    then have "p - length xs < k * length xs" using Suc.prems by simp
    then have "np_tile xs k ! (p - length xs) = xs ! ((p - length xs) mod length xs)"
      by (rule Suc.IH)
    moreover have "(p - length xs) mod length xs = p mod length xs"
      using False by (simp add: le_mod_geq)
    ultimately show ?thesis using False by (simp add: unfold nth_append)
  qed
qed

lemma quarter_steps: "r < 4 \<Longrightarrow> [0, 1 / 4, 2 / 4, 3 / 4 :: rat] ! r = of_nat r / 4"
proof -
  assume "r < 4"
  then consider "r = 0" | "r = 1" | "r = 2" | "r = 3" by linarith
  then show ?thesis by cases simp_all
qed

lemma fractional_hours_length:
  "fractional_hours ts ndays = Inr hours \<Longrightarrow> length hours = length ts \<and> length ts = 96 * ndays"
  by (auto simp: fractional_hours_cases length_np_tile split: if_splits)

lemma fractional_hours_nth:
  assumes "fractional_hours ts ndays = Inr hours" and "p < length ts"
  shows "hours ! p = of_int (hour (ts ! p)) + of_nat (p mod 4) / 4"
proof -
  have len: "length ts = 96 * ndays"
    using assms(1) by (simp add: fractional_hours_length)
  have hours: "hours = map2 (+) (map (\<lambda>t. of_int (hour t)) ts)
                  (np_tile [0, 1 / 4, 2 / 4, 3 / 4] (24 * ndays))"
    using assms(1) len by (simp add: fractional_hours_cases)
  have p: "p < 24 * ndays * length [0, 1 / 4, 2 / 4, 3 / 4 :: rat]"
    using assms(2) len by simp
  have "np_tile [0, 1 / 4, 2 / 4, 3 / 4 :: rat] (24 * ndays) ! p = of_nat (p mod 4) / 4"
    using nth_np_tile [OF p] quarter_steps [of "p mod 4"] by simp
  then show ?thesis
    using assms(2) len by (simp add: hours length_np_tile)
qed

lemma apply_charge_length:
  "length (apply_charge c months weekdays hours)
     = min (length months) (min (length weekdays) (length hours))"
  by (simp add: apply_charge_def)

lemma apply_charge_nth:
  assumes "p < length months" and "p < length weekdays" and "p < length hours"
  shows "apply_charge c months weekdays hours ! p
       = (months ! p \<ge> month_start c \<and> months ! p \<le> month_end c
          \<and> weekdays ! p \<ge> weekday_start c \<and> weekdays ! p \<le> weekday_end c
          \<and> hours ! p \<ge> hour_start c \<and> hours ! p < hour_end c)"
  using assms by (simp add: apply_charge_def)

subsection \<open>Costs of an all-zero column\<close>

lemma np_max_replicate: "0 < n \<Longrightarrow> np_max (replicate n x) = x"
proof -
  have "fold max (replicate k x) x = x" for k
    by (induction k) simp_all
  then show "0 < n \<Longrightarrow> np_max (replicate n x) = x"
    by (cases n) (simp_all add: np_max_def)
qed

lemma sum_map2_zero:
  assumes "\<And>c. f c z = (0::rat)"
  shows "sum_list (map2 f cs (replicate n z)) = 0"
proof (induction cs arbitrary: n)
  case Nil
  show ?case by simp
next
  case (Cons c cs)
  show ?case
  proof (cases n)
    case 0
    then show ?thesis by simp
  next
    case (Suc k)
    then show ?thesis using Cons.IH [of k] assms by simp
  qed
qed

lemma sum_zero_rates: "sum_list (map2 (\<lambda>c r. c / d * r) cs (replicate n (0::rat))) = 0"
  by (rule sum_map2_zero) simp

lemma demand_cost_zero_column:
  assumes "length consumption_data = n" and "0 < n"
  shows "calculate_cost [(0, Mat [replicate n 0])] consumption_data ''demand'' util = Inr 0"
proof -
  have "consumption_data \<noteq> []" using assms by auto
  then have "column_charge 0 None (replicate n 0) consumption_data = Inr 0"
    using assms by (simp add: column_charge_def Let_def np_max_replicate)
  then show ?thesis
    by (simp add: calculate_cost_def columns_of_def next_name_of_def)
qed

lemma energy_cost_zero_column:
  assumes "length consumption_data = n" and "util = ''electric'' \<or> util = ''gas''"
  shows "calculate_cost [(0, Vec (replicate n 0))] consumption_data ''energy'' util = Inr 0"
proof -
  have "energy_tiers [(0, Vec (replicate n 0))] consumption_data d 0 0 0 None = Inr 0" for d
    using assms(1) by (simp add: billed_def block_len_def sum_zero_rates del: times_divide_eq_left)
  with assms(2) show ?thesis
    by (auto simp: calculate_cost_def simp del: energy_tiers.simps)
qed

lemma map_result_add_zero: "map_result ((+) (0::rat)) r = r"
  by (cases r) simp_all

lemma zero_column_adds_nothing:
  assumes "length consumption_data = n" and "0 < n"
  shows "calculate_cost (before @ (name, Mat (pre @ replicate n 0 # post)) # rest)
           consumption_data ''demand'' util
       = calculate_cost (before @ (name, Mat (pre @ post)) # rest) consumption_data ''demand'' util"
proof -
  have "consumption_data \<noteq> []" using assms by auto
  then have "column_charge name (next_name_of rest) (replicate n 0) consumption_data = Inr 0"
    using assms by (simp add: column_charge_def Let_def np_max_replicate split: option.splits)
  from demand_tiers_insert [OF this] show ?thesis
    by (simp add: calculate_cost_def map_result_add_zero)
qed

lemma filter_charges_empty:
  "(filter_charges rate_data charge_type util = [])
     = (filter (\<lambda>c. type c = charge_type \<and> utility c = util) rate_data = [])"
  using charges_of_filter [of id rate_data charge_type util]
  by (metis (no_types, lifting) map_is_Nil_conv)

subsection \<open>The example day\<close>

lemma length_one_day: "length (one_day m w) = 96"
  by (simp add: one_day_def upt_rec)

lemma one_day_nonempty: "one_day m w \<noteq> []"
  using length_one_day [of m w] by auto

lemma fractional_hours_one_day:
  "fractional_hours (one_day m w) (length (one_day m w) div 96)
     = Inr (map2 (+) (map (\<lambda>t. of_int (hour t)) (one_day m w))
              (np_tile [0, 1 / 4, 2 / 4, 3 / 4] 24))"
  by (simp add: fractional_hours_cases length_one_day)

subsection \<open>The peak the code finds and the restricted peak\<close>









subsection \<open>The keys of the table\<close>

lemma apply_charge_nonempty:
  "ms \<noteq> [] \<Longrightarrow> ws \<noteq> [] \<Longrightarrow> hs \<noteq> [] \<Longrightarrow> apply_charge c ms ws hs \<noteq> []"
  by (simp add: apply_charge_def)

lemma mask_times_nonempty: "applies \<noteq> [] \<Longrightarrow> mask_times applies rate \<noteq> []"
  by (simp add: mask_times_def)

lemma demand_rows_nonempty:
  assumes "demand_rows rows mn ps ms ws hs seen data = Inr out"
    and "ms \<noteq> []" and "ws \<noteq> []" and "hs \<noteq> []"
    and "\<forall>col \<in> set data. col \<noteq> []"
    and "\<forall>p j m. seen p = Some (j, m) \<longrightarrow> m \<noteq> []"
  shows "length out = length data \<and> (\<forall>col \<in> set out. col \<noteq> [])"
  using assms(1,5,6)
proof (induction rows arbitrary: seen data)
  case Nil
  then show ?case by simp
next
  case (Cons row rows)
  obtain idx c where row: "row = (idx, c)" by (cases row)
  define ac where "ac = apply_charge c ms ws hs"
  have ac: "ac \<noteq> []"
    unfolding ac_def using assms(2-4) by (rule apply_charge_nonempty)
  have inrange: "idx - mn < length ps"
    using Cons.prems(1) by (auto simp: row Let_def split: if_splits)
  show ?case
  proof (cases "seen (ps ! (idx - mn))")
    case None
    have step: "demand_rows rows mn ps ms ws hs (seen(ps ! (idx - mn) \<mapsto> (idx - mn, ac)))
        (data[idx - mn := mask_times ac (charge c)]) = Inr out"
      using Cons.prems(1) inrange None
      by (auto simp: row Let_def ac_def split: if_splits)
    have cols: "\<forall>col \<in> set (data[idx - mn := mask_times ac (charge c)]). col \<noteq> []"
      using Cons.prems(2) mask_times_nonempty [OF ac]
      by (metis insertE set_update_subset_insert subsetD)
    have seen': "\<forall>p j m. (seen(ps ! (idx - mn) \<mapsto> (idx - mn, ac))) p = Some (j, m) \<longrightarrow> m \<noteq> []"
      using Cons.prems(3) ac by auto
    from Cons.IH [OF step cols seen'] show ?thesis by simp
  next
    case (Some sm)
    obtain j m where sm: "sm = (j, m)" by (cases sm)
    have m: "m \<noteq> []" using Cons.prems(3) Some sm by blast
    have step: "demand_rows rows mn ps ms ws hs seen
        (data[j := mask_times (map2 (\<or>) ac m) (charge c)]) = Inr out"
      using Cons.prems(1) inrange Some sm
      by (auto simp: row Let_def ac_def split: if_splits)
    have "map2 (\<or>) ac m \<noteq> []" using ac m by (cases ac; cases m) simp_all
    then have cols: "\<forall>col \<in> set (data[j := mask_times (map2 (\<or>) ac m) (charge c)]). col \<noteq> []"
      using Cons.prems(2) mask_times_nonempty
      by (metis insertE set_update_subset_insert subsetD)
    from Cons.IH [OF step cols Cons.prems(3)] show ?thesis by simp
  qed
qed

lemma energy_rows_nonempty:
  assumes "energy_rows rows mn ps ms ws hs data = Inr out"
    and "ms \<noteq> []" and "ws \<noteq> []" and "hs \<noteq> []" and "data \<noteq> []"
  shows "out \<noteq> []"
  using assms(1,5)
proof (induction rows arbitrary: data)
  case Nil
  then show ?case by simp
next
  case (Cons row rows)
  obtain idx c where row: "row = (idx, c)" by (cases row)
  define rates where "rates = mask_times (apply_charge c ms ws hs) (charge c)"
  have "rates \<noteq> []"
    unfolding rates_def using assms(2-4) by (intro mask_times_nonempty apply_charge_nonempty)
  then have ne: "map2 (+) data rates \<noteq> []"
    using Cons.prems(2) by (cases data; cases rates) simp_all
  have step: "energy_rows rows mn ps ms ws hs (map2 (+) data rates) = Inr out"
    using Cons.prems(1) by (auto simp: row Let_def rates_def split: if_splits)
  from Cons.IH [OF step ne] show ?case .
qed

lemma tier_data_nonempty:
  assumes "tier_data rows ct ndays ps ms ws hs = Inr blk"
    and "rows \<noteq> []" and "0 < ndays"
    and "ms \<noteq> []" and "ws \<noteq> []" and "hs \<noteq> []"
  shows "0 < array_size [(l, blk)]"
proof (cases "ct = ''demand''")
  case True
  then obtain out where out: "demand_rows rows (np_min (map fst rows)) ps ms ws hs Map.empty
      (replicate (length rows) (replicate (ndays * 96) 0)) = Inr out" and blk: "blk = Mat out"
    using assms(1) by (auto simp: tier_data_def Let_def map_result_def split: sum.splits)
  have "\<forall>col \<in> set (replicate (length rows) (replicate (ndays * 96) (0::rat))). col \<noteq> []"
    using assms(3) by simp
  from demand_rows_nonempty [OF out assms(4-6) this]
  have "length out = length rows" and "\<forall>col \<in> set out. col \<noteq> []" by simp_all
  then have "concat out \<noteq> []" using assms(2) by (cases out) auto
  then show ?thesis by (simp add: array_size_def blk)
next
  case False
  then obtain out where out: "energy_rows rows (np_min (map fst rows)) ps ms ws hs
      (replicate (ndays * 96) 0) = Inr out" and blk: "blk = Vec out"
    using assms(1) by (auto simp: tier_data_def Let_def map_result_def split: sum.splits)
  have "replicate (ndays * 96) (0::rat) \<noteq> []" using assms(3) by simp
  from energy_rows_nonempty [OF out assms(4-6) this]
  show ?thesis by (simp add: array_size_def blk)
qed

lemma array_size_append: "arr \<noteq> [] \<Longrightarrow> array_size (arr @ extra) = array_size arr"
  by (cases arr) (simp_all add: array_size_def)

lemma add_field_keys:
  assumes "add_field arr l data = Inr arr'"
    and "arr = [] \<or> 0 < array_size arr"
    and "0 < array_size [(l, data)]"
  shows "map fst arr' = map fst arr @ [l] \<and> 0 < array_size arr'"
proof (cases "array_size arr = 0")
  case True
  then have "arr = []" using assms(2) by simp
  then have "arr' = [(l, data)]" using assms(1) by (simp add: add_field_def array_size_def)
  then show ?thesis using assms(3) \<open>arr = []\<close> by simp
next
  case False
  then have ne: "arr \<noteq> []" by (auto simp: array_size_def)
  from assms(1) False obtain blk where "arr' = arr @ [(l, blk)]"
    by (auto simp: add_field_def split: block.splits if_splits)
  then show ?thesis using False ne by (simp add: array_size_append)
qed

lemma tiers_loop_keys:
  assumes "tiers_loop limits charges ct ndays ps ms ws hs arr = Inr table"
    and "arr = [] \<or> 0 < array_size arr"
    and "0 < ndays" and "ms \<noteq> []" and "ws \<noteq> []" and "hs \<noteq> []"
    and "\<forall>l \<in> set limits. filter (\<lambda>(idx, c). basic_charge_limit c = l) charges \<noteq> []"
  shows "map fst table = map fst arr @ limits"
  using assms(1,2,7)
proof (induction limits arbitrary: arr)
  case Nil
  then show ?case by simp
next
  case (Cons l limits)
  define rows where "rows = filter (\<lambda>(idx, c). basic_charge_limit c = l) charges"
  have rows: "rows \<noteq> []" using Cons.prems(3) by (simp add: rows_def)
  from Cons.prems(1) obtain data arr' where
    data: "tier_data rows ct ndays ps ms ws hs = Inr data"
    and arr': "add_field arr l data = Inr arr'"
    and rest: "tiers_loop limits charges ct ndays ps ms ws hs arr' = Inr table"
    by (auto simp: Let_def rows_def split: sum.splits)
  have "0 < array_size [(l, data)]"
    using data rows assms(3-6) by (rule tier_data_nonempty)
  from add_field_keys [OF arr' Cons.prems(2) this]
  have keys: "map fst arr' = map fst arr @ [l]" and size: "0 < array_size arr'" by simp_all
  have "map fst table = map fst arr' @ limits"
    using rest size Cons.prems(3) by (intro Cons.IH) simp_all
  then show ?case by (simp add: keys)
qed

subsection \<open>The fields of the table once made\<close>



subsection \<open>The rules of a tier at the head of the filtered rows\<close>








subsection \<open>The field of a head tier in the table\<close>













subsection \<open>The period lookup in a later tier\<close>

text \<open>
  Line 103 reads the period of a rule at \<^verbatim>\<open>periods[idx - min(limit_charges.index)]\<close>,
  where \<^verbatim>\<open>periods\<close> holds the periods of all the filtered rules: for a tier that does not
  start the filtered rules this is the period of another rule. Here the two rules of the
  limit 10 have the period \<^verbatim>\<open>peak\<close>, for the hours 0 to 12 and 12 to 24; they are looked
  up as \<^verbatim>\<open>a\<close> and \<^verbatim>\<open>b\<close>, the periods of the two rules of the limit 0, and are not
  merged: the tier has a column for each, both with the rate, where line 113 asks for one
  column. With a consumption of 20 throughout, the period is then billed twice in the
  tier (70 and 70) where its merged column is billed once.
\<close>

lemma later_tier_not_merged:
  "get_charge_array (WithDateTime (one_day 1 4))
     [\<lparr>utility = ''electric'', type = ''demand'', period = ''a'', basic_charge_limit = 0,
       month_start = 1, month_end = 12, hour_start = 0, hour_end = 24,
       weekday_start = 0, weekday_end = 6, charge = 1\<rparr>,
      \<lparr>utility = ''electric'', type = ''demand'', period = ''b'', basic_charge_limit = 0,
       month_start = 1, month_end = 12, hour_start = 0, hour_end = 24,
       weekday_start = 0, weekday_end = 6, charge = 2\<rparr>,
      \<lparr>utility = ''electric'', type = ''demand'', period = ''peak'', basic_charge_limit = 10,
       month_start = 1, month_end = 12, hour_start = 0, hour_end = 12,
       weekday_start = 0, weekday_end = 6, charge = 7\<rparr>,
      \<lparr>utility = ''electric'', type = ''demand'', period = ''peak'', basic_charge_limit = 10,
       month_start = 1, month_end = 12, hour_start = 12, hour_end = 24,
       weekday_start = 0, weekday_end = 6, charge = 7\<rparr>] ''demand'' ''electric''
   = Inr (Structured
       [(0, Mat [replicate 96 1, replicate 96 2]),
        (10, Mat [replicate 48 7 @ replicate 48 0, replicate 48 0 @ replicate 48 7])])"
  by code_simp

lemma later_tier_billed_twice:
  "calculate_cost
     [(0, Mat [replicate 96 1, replicate 96 2]),
      (10, Mat [replicate 48 7 @ replicate 48 0, replicate 48 0 @ replicate 48 7])]
     (replicate 96 20) ''demand'' ''electric'' = Inr 170
   \<and> calculate_cost
     [(0, Mat [replicate 96 1, replicate 96 2]),
      (10, Mat [replicate 96 7, replicate 96 0])]
     (replicate 96 20) ''demand'' ''electric'' = Inr 100"
  by code_simp

section \<open>Specification properties of calculate\_cost\<close>

subsection \<open>Energy billing\<close>

text \<open>
  C1 (the code at the worked example of the specification). Three samples \<open>[2, 2, 2]\<close>, divisor 4
  (electric), tiers with limits 0 and 1 and rates 1 and 2. The running total reaches
  0.5, 1.0, 1.5 and exceeds the limit 1 at the last sample. The two samples before it are
  billed at rate 1 (1.00), the part of the crossing sample below the limit is
  \<open>1 - 4 / 4 = 0\<close>, the cursor moves past the crossing sample, and since that sample is the
  last one the loop over the tiers stops: the 0.5 units above the limit are billed at no
  rate. The cost is 1.00, where the blended total of the specification is
  \<open>1.0 * 1 + 0.5 * 2 = 2.00\<close>.
\<close>

theorem energy_crossing_worked_example:
  "calculate_cost [(0, Vec [1, 1, 1]), (1, Vec [2, 2, 2])] [2, 2, 2] ''energy'' ''electric'' = Inr 1"
  by (simp add: calculate_cost_def billed_def crossing_def block_len_def upt_rec)

text \<open>
  C4. For a table with a single tier whose rates are aligned with the consumption
  window, the energy cost is the sum over the whole window of
  \<open>consumption / divisor * rate\<close>, with divisor 4 for electric and 96 for gas; neither the
  running total nor the cursor takes part.
\<close>

theorem single_tier_energy:
  assumes "length rates = length consumption_data"
    and "util = ''electric'' \<or> util = ''gas''"
  shows "calculate_cost [(name, Vec rates)] consumption_data ''energy'' util
       = Inr (sum_list (map2 (\<lambda>c r. c / (if util = ''electric'' then 4 else 96) * r)
                          consumption_data rates))"
proof -
  have tier: "energy_tiers [(name, Vec rates)] consumption_data d 0 0 0 None
      = Inr (sum_list (map2 (\<lambda>c r. c / d * r) consumption_data rates))" for d
    using assms(1) by (simp add: billed_def block_len_def del: times_divide_eq_left)
  from assms(2) show ?thesis
    by (auto simp: calculate_cost_def tier simp del: energy_tiers.simps)
qed

theorem single_tier_energy_witness:
  "calculate_cost [(0, Vec [3, 5])] [8, 4] ''energy'' ''electric'' = Inr 11
   \<and> calculate_cost [(0, Vec [3, 5])] [96, 192] ''energy'' ''gas'' = Inr 13"
  using single_tier_energy [of "[3, 5]" "[8, 4]" "''electric''" 0]
    single_tier_energy [of "[3, 5]" "[96, 192]" "''gas''" 0]
  by simp

subsection \<open>Demand billing\<close>



text \<open>
  C10. On the demand path the utility argument is never read: the result (a cost or an
  error) is the same for any two utility strings, valid or not, and it is never the usage
  error.
\<close>

theorem demand_ignores_utility:
  "calculate_cost charges consumption_data ''demand'' u1
     = calculate_cost charges consumption_data ''demand'' u2
   \<and> \<not> is_usage_error (calculate_cost charges consumption_data ''demand'' u1)"
  by (auto simp: calculate_cost_def is_usage_error_iff dest: demand_tiers_error)

theorem demand_ignores_utility_witness:
  "calculate_cost [(0, Mat [ [1, 1, 1] ]), (10, Mat [ [2, 2, 2] ])] [2, 10, 4] ''demand'' ''water''
     = calculate_cost [(0, Mat [ [1, 1, 1] ]), (10, Mat [ [2, 2, 2] ])] [2, 10, 4] ''demand'' ''electric''"
  using demand_ignores_utility
    [of "[(0, Mat [ [1, 1, 1] ]), (10, Mat [ [2, 2, 2] ])]" "[2, 10, 4]" "''water''" "''electric''"]
  by blast

section \<open>Specification properties of the errors\<close>

text \<open>
  C8 (as stated, at a frame without the timestamp column). With the charge type
  \<^verbatim>\<open>"foo"\<close>, outside the three valid ones, the function reads the \<^verbatim>\<open>DateTime\<close> column
  (line 74) before it reaches the \<^verbatim>\<open>raise\<close> of line 90: the error is the \<^verbatim>\<open>KeyError\<close>,
  not the usage error.
\<close>

theorem usage_error_preempted:
  "get_charge_array (WithoutDateTime 96) [] ''foo'' ''electric'' = Inl KeyError
   \<and> \<not> is_usage_error (get_charge_array (WithoutDateTime 96) [] ''foo'' ''electric'')"
proof -
  have "get_charge_array (WithoutDateTime 96) [] ''foo'' ''electric'' = Inl KeyError"
    by (rule get_charge_array_no_column) simp
  then show ?thesis by (simp add: is_usage_error_def)
qed

text \<open>
  C8 (amended). \<^verbatim>\<open>get_charge_array\<close> raises the usage error exactly when the charge type
  is outside customer, demand and energy and the frame has its timestamp column and a
  whole number of 96-sample days (without the column, or with a part of a day, the error
  of the column read or of the addition of the quarter hours comes first).
  \<^verbatim>\<open>calculate_cost\<close> raises the usage error exactly when the charge type is outside
  demand and energy, or the charge type is energy and the utility is outside electric and
  gas; on the demand path no utility raises it.
\<close>

theorem usage_error_exactly:
  "is_usage_error (get_charge_array f rate_data charge_type util)
     = (charge_type \<noteq> ''customer'' \<and> charge_type \<noteq> ''demand'' \<and> charge_type \<noteq> ''energy''
        \<and> (case f of WithDateTime ts \<Rightarrow> length ts mod 96 = 0 | WithoutDateTime n \<Rightarrow> False))
   \<and> is_usage_error (calculate_cost charges consumption_data charge_type' util')
     = (charge_type' \<noteq> ''demand'' \<and> charge_type' \<noteq> ''energy''
        \<or> charge_type' = ''energy'' \<and> util' \<noteq> ''electric'' \<and> util' \<noteq> ''gas'')"
  by (rule conjI [OF resolve_usage_error cost_usage_error])

theorem usage_error_exactly_witness:
  "is_usage_error (get_charge_array (WithDateTime []) [] ''foo'' ''electric'')
   \<and> is_usage_error (calculate_cost [(0, Vec [1])] [4] ''energy'' ''water'')
   \<and> \<not> is_usage_error (get_charge_array (WithoutDateTime 96) [] ''foo'' ''electric'')
   \<and> \<not> is_usage_error (calculate_cost [(0, Vec [1])] [4] ''demand'' ''water'')"
proof -
  note a = usage_error_exactly [of "WithDateTime []" "[]" "''foo''" "''electric''"
      "[(0, Vec [1])]" "[4]" "''energy''" "''water''"]
  note b = usage_error_exactly [of "WithoutDateTime 96" "[]" "''foo''" "''electric''"
      "[(0, Vec [1])]" "[4]" "''demand''" "''water''"]
  have 1: "is_usage_error (get_charge_array (WithDateTime []) [] ''foo'' ''electric'')"
    using a [THEN conjunct1] by simp
  have 2: "is_usage_error (calculate_cost [(0, Vec [1])] [4] ''energy'' ''water'')"
    using a [THEN conjunct2] by simp
  have 3: "\<not> is_usage_error (get_charge_array (WithoutDateTime 96) [] ''foo'' ''electric'')"
    using b [THEN conjunct1] by simp
  have 4: "\<not> is_usage_error (calculate_cost [(0, Vec [1])] [4] ''demand'' ''water'')"
    using b [THEN conjunct2] by simp
  from 1 2 3 4 show ?thesis by (intro conjI)
qed

text \<open>
  C9. For the charge type customer the function returns the charges of the rules of that
  type and utility, in the order of the table, whatever the frame is, with or without the
  timestamp column. The \<^verbatim>\<open>KeyError\<close> of the missing column arises exactly for a frame
  without the column and a charge type other than customer: for demand and energy, and
  also for an invalid charge type, where it comes before the usage error.
\<close>

theorem customer_never_reads_timestamps:
  "get_charge_array f rate_data ''customer'' util
     = Inr (Flat (map charge (filter (\<lambda>c. type c = ''customer'' \<and> utility c = util) rate_data)))
   \<and> (get_charge_array f rate_data charge_type util = Inl KeyError)
     = (charge_type \<noteq> ''customer'' \<and> (\<exists>n. f = WithoutDateTime n))"
  by (simp add: get_charge_array_customer resolve_key_error charges_of_filter)

theorem customer_never_reads_timestamps_witness:
  "get_charge_array (WithoutDateTime 96)
     [\<lparr>utility = ''electric'', type = ''customer'', period = '''', basic_charge_limit = 0,
       month_start = 1, month_end = 12, hour_start = 0, hour_end = 24,
       weekday_start = 0, weekday_end = 6, charge = 25\<rparr>] ''customer'' ''electric''
     = Inr (Flat [25])
   \<and> get_charge_array (WithoutDateTime 96) [] ''demand'' ''electric'' = Inl KeyError
   \<and> get_charge_array (WithoutDateTime 96) [] ''foo'' ''electric'' = Inl KeyError"
  using customer_never_reads_timestamps [of "WithoutDateTime 96"
      "[\<lparr>utility = ''electric'', type = ''customer'', period = '''', basic_charge_limit = 0,
         month_start = 1, month_end = 12, hour_start = 0, hour_end = 24,
         weekday_start = 0, weekday_end = 6, charge = 25\<rparr>]" "''electric''" "''customer''"]
    customer_never_reads_timestamps [of "WithoutDateTime 96" "[]" "''electric''" "''demand''"]
    customer_never_reads_timestamps [of "WithoutDateTime 96" "[]" "''electric''" "''foo''"]
  by simp

section \<open>Specification properties of get\_charge\_array\<close>

text \<open>
  C5. When no rule of the table has the charge type and the utility asked for, then for
  the charge types demand and energy, on a window of whole days with its timestamp
  column, the function returns, without an error, the array with the single field of key
  0 (the name \<^verbatim>\<open>"0.0"\<close>) that is zero at every timestamp: one column for demand, a vector
  for energy. The cost of that array over the non-empty window is 0 (for energy, with the
  utility electric or gas, the two the cost accepts).
\<close>

theorem empty_filter_fallback:
  assumes "filter (\<lambda>c. type c = charge_type \<and> utility c = util) rate_data = []"
    and "charge_type = ''demand'' \<or> charge_type = ''energy''"
    and "length ts mod 96 = 0" and "ts \<noteq> []"
    and "length consumption_data = length ts"
    and "charge_type = ''energy'' \<longrightarrow> util = ''electric'' \<or> util = ''gas''"
  shows "get_charge_array (WithDateTime ts) rate_data charge_type util
       = Inr (Structured [(0, if charge_type = ''demand'' then Mat [replicate (length ts) 0]
                              else Vec (replicate (length ts) 0))])
     \<and> calculate_cost [(0, if charge_type = ''demand'' then Mat [replicate (length ts) 0]
                            else Vec (replicate (length ts) 0))]
          consumption_data charge_type util = Inr 0"
proof
  have "filter_charges rate_data charge_type util = []"
    using assms(1) by (simp add: filter_charges_empty)
  then show "get_charge_array (WithDateTime ts) rate_data charge_type util
       = Inr (Structured [(0, if charge_type = ''demand'' then Mat [replicate (length ts) 0]
                              else Vec (replicate (length ts) 0))])"
    using assms(2,3) by (simp add: get_charge_array_empty)
next
  from assms(2)
  show "calculate_cost [(0, if charge_type = ''demand'' then Mat [replicate (length ts) 0]
                            else Vec (replicate (length ts) 0))]
          consumption_data charge_type util = Inr 0"
  proof
    assume "charge_type = ''demand''"
    then show ?thesis
      using assms(4,5) by (simp add: demand_cost_zero_column)
  next
    assume e: "charge_type = ''energy''"
    then have "util = ''electric'' \<or> util = ''gas''" using assms(6) by simp
    then show ?thesis
      using e assms(5) by (simp add: energy_cost_zero_column)
  qed
qed

theorem empty_filter_fallback_witness:
  "get_charge_array (WithDateTime (one_day 1 4))
     [\<lparr>utility = ''electric'', type = ''energy'', period = ''all'', basic_charge_limit = 0,
       month_start = 1, month_end = 12, hour_start = 0, hour_end = 24,
       weekday_start = 0, weekday_end = 6, charge = 2\<rparr>] ''demand'' ''gas''
     = Inr (Structured [(0, Mat [replicate 96 0])])
   \<and> calculate_cost [(0, Mat [replicate 96 0])] (replicate 96 7) ''demand'' ''gas'' = Inr 0
   \<and> get_charge_array (WithDateTime (one_day 1 4))
     [] ''energy'' ''gas''
     = Inr (Structured [(0, Vec (replicate 96 0))])
   \<and> calculate_cost [(0, Vec (replicate 96 0))] (replicate 96 7) ''energy'' ''gas'' = Inr 0"
proof -
  have d: "get_charge_array (WithDateTime (one_day 1 4))
     [\<lparr>utility = ''electric'', type = ''energy'', period = ''all'', basic_charge_limit = 0,
       month_start = 1, month_end = 12, hour_start = 0, hour_end = 24,
       weekday_start = 0, weekday_end = 6, charge = 2\<rparr>] ''demand'' ''gas''
     = Inr (Structured [(0, Mat [replicate 96 0])])
   \<and> calculate_cost [(0, Mat [replicate 96 0])] (replicate 96 7) ''demand'' ''gas'' = Inr 0"
    using empty_filter_fallback [of "''demand''" "''gas''"
        "[\<lparr>utility = ''electric'', type = ''energy'', period = ''all'', basic_charge_limit = 0,
           month_start = 1, month_end = 12, hour_start = 0, hour_end = 24,
           weekday_start = 0, weekday_end = 6, charge = 2\<rparr>]"
        "one_day 1 4" "replicate 96 7"]
    by (simp add: length_one_day one_day_nonempty)
  have e: "get_charge_array (WithDateTime (one_day 1 4))
     [] ''energy'' ''gas''
     = Inr (Structured [(0, Vec (replicate 96 0))])
   \<and> calculate_cost [(0, Vec (replicate 96 0))] (replicate 96 7) ''energy'' ''gas'' = Inr 0"
    using empty_filter_fallback [of "''energy''" "''gas''" "[]"
        "one_day 1 4" "replicate 96 7"]
    by (simp add: length_one_day one_day_nonempty)
  from d e show ?thesis by simp
qed

text \<open>
  C6. On a window of whole days, the mask of a rule at row \<open>p\<close> holds exactly when the
  month of the row lies in \<open>[month_start, month_end]\<close>, its weekday in
  \<open>[weekday_start, weekday_end]\<close>, and its fractional hour, the hour of the day plus a
  quarter for each step of the row within its hour (\<open>p mod 4\<close>), lies in
  \<open>[hour_start, hour_end)\<close>: the start inclusive, the end exclusive. The fractional hour
  of the last step of a day is 23.75, so for a rule with \<open>hour_end = 24\<close> the test against
  the end holds at every row and the mask is decided by the other five tests.
\<close>

theorem applicability_mask:
  assumes "fractional_hours ts ndays = Inr hours" and "p < length ts"
  shows "apply_charge c (map month ts) (map weekday ts) hours ! p
       = (month_start c \<le> month (ts ! p) \<and> month (ts ! p) \<le> month_end c
          \<and> weekday_start c \<le> weekday (ts ! p) \<and> weekday (ts ! p) \<le> weekday_end c
          \<and> hour_start c \<le> of_int (hour (ts ! p)) + of_nat (p mod 4) / 4
          \<and> of_int (hour (ts ! p)) + of_nat (p mod 4) / 4 < hour_end c)
     \<and> (hour_end c = 24 \<and> hour (ts ! p) \<le> 23 \<longrightarrow>
          apply_charge c (map month ts) (map weekday ts) hours ! p
            = (month_start c \<le> month (ts ! p) \<and> month (ts ! p) \<le> month_end c
               \<and> weekday_start c \<le> weekday (ts ! p) \<and> weekday (ts ! p) \<le> weekday_end c
               \<and> hour_start c \<le> of_int (hour (ts ! p)) + of_nat (p mod 4) / 4))"
proof -
  have len: "length hours = length ts"
    using assms(1) by (simp add: fractional_hours_length)
  have h: "hours ! p = of_int (hour (ts ! p)) + of_nat (p mod 4) / 4"
    using assms by (rule fractional_hours_nth)
  have mask: "apply_charge c (map month ts) (map weekday ts) hours ! p
       = (month_start c \<le> month (ts ! p) \<and> month (ts ! p) \<le> month_end c
          \<and> weekday_start c \<le> weekday (ts ! p) \<and> weekday (ts ! p) \<le> weekday_end c
          \<and> hour_start c \<le> of_int (hour (ts ! p)) + of_nat (p mod 4) / 4
          \<and> of_int (hour (ts ! p)) + of_nat (p mod 4) / 4 < hour_end c)"
    using assms(2) len by (simp add: apply_charge_nth h)
  have "p mod 4 < 4" by simp
  then have "(of_nat (p mod 4) :: rat) < 4"
    by (metis of_nat_less_iff of_nat_numeral)
  then have frac: "(of_nat (p mod 4) :: rat) / 4 < 1" by simp
  have last: "of_int (hour (ts ! p)) + of_nat (p mod 4) / 4 < (24 :: rat)" if "hour (ts ! p) \<le> 23"
  proof -
    have "(of_int (hour (ts ! p)) :: rat) \<le> 23" using that by (metis of_int_le_iff of_int_numeral)
    with frac show ?thesis by linarith
  qed
  show ?thesis
    using mask last by auto
qed

theorem applicability_mask_witness:
  "apply_charge
     \<lparr>utility = ''electric'', type = ''demand'', period = ''peak'', basic_charge_limit = 0,
       month_start = 6, month_end = 9, hour_start = 18, hour_end = 24,
       weekday_start = 0, weekday_end = 4, charge = 5\<rparr>
     (map month (one_day 7 2)) (map weekday (one_day 7 2))
     (map2 (+) (map (\<lambda>t. of_int (hour t)) (one_day 7 2)) (np_tile [0, 1 / 4, 2 / 4, 3 / 4] 24))
     ! 95
   \<and> \<not> apply_charge
     \<lparr>utility = ''electric'', type = ''demand'', period = ''peak'', basic_charge_limit = 0,
       month_start = 6, month_end = 9, hour_start = 18, hour_end = 24,
       weekday_start = 0, weekday_end = 4, charge = 5\<rparr>
     (map month (one_day 7 2)) (map weekday (one_day 7 2))
     (map2 (+) (map (\<lambda>t. of_int (hour t)) (one_day 7 2)) (np_tile [0, 1 / 4, 2 / 4, 3 / 4] 24))
     ! 71"
proof -
  let ?c = "\<lparr>utility = ''electric'', type = ''demand'', period = ''peak'', basic_charge_limit = 0,
       month_start = 6, month_end = 9, hour_start = 18, hour_end = 24,
       weekday_start = 0, weekday_end = 4, charge = 5\<rparr>"
  have h: "fractional_hours (one_day 7 2) 1
      = Inr (map2 (+) (map (\<lambda>t. of_int (hour t)) (one_day 7 2))
               (np_tile [0, 1 / 4, 2 / 4, 3 / 4] 24))"
    using fractional_hours_one_day [of 7 2] by (simp add: length_one_day)
  have last: "one_day 7 2 ! 95 = \<lparr>month = 7, weekday = 2, hour = 23\<rparr>"
    by code_simp
  have before: "one_day 7 2 ! 71 = \<lparr>month = 7, weekday = 2, hour = 17\<rparr>"
    by code_simp
  have "95 < length (one_day 7 2)" and "71 < length (one_day 7 2)"
    by (simp_all add: length_one_day)
  from applicability_mask [OF h this(1), THEN conjunct1, of ?c]
    applicability_mask [OF h this(2), THEN conjunct1, of ?c]
  show ?thesis by (simp add: last before)
qed




text \<open>
  C7. For the charge types demand and energy, when some rule of the table has the charge
  type and the utility asked for and the window is not empty, the keys of the array the
  function returns, in the order of its fields, are the limits of those rules, each once,
  in ascending order.
\<close>

theorem table_keys_sorted_distinct:
  assumes "get_charge_array (WithDateTime ts) rate_data charge_type util = Inr (Structured table)"
    and "charge_type = ''demand'' \<or> charge_type = ''energy''"
    and "filter (\<lambda>c. type c = charge_type \<and> utility c = util) rate_data \<noteq> []"
    and "ts \<noteq> []"
  shows "map fst table
       = sort (remdups (map basic_charge_limit
           (filter (\<lambda>c. type c = charge_type \<and> utility c = util) rate_data)))
     \<and> set (map fst table)
       = basic_charge_limit ` set (filter (\<lambda>c. type c = charge_type \<and> utility c = util) rate_data)
     \<and> distinct (map fst table) \<and> sorted (map fst table)"
proof -
  define charges where "charges = filter_charges rate_data charge_type util"
  define hours where "hours = map2 (+) (map (\<lambda>t. of_int (hour t)) ts)
                 (np_tile [0, 1 / 4, 2 / 4, 3 / 4 :: rat] (24 * (length ts div 96)))"
  have nc: "charge_type \<noteq> ''customer''" using assms(2) by auto
  have whole: "length ts mod 96 = 0"
    using assms(1) get_charge_array_part_day [OF nc, of ts rate_data util] by auto
  have charges: "charges \<noteq> []"
    using assms(3) by (simp add: charges_def filter_charges_empty)
  have loop: "tiers_loop (np_unique (map (\<lambda>(idx, c). basic_charge_limit c) charges)) charges
      charge_type (length ts div 96) (map (\<lambda>(idx, c). period c) charges)
      (map month ts) (map weekday ts) hours [] = Inr table"
    using assms(1) get_charge_array_tiers [OF assms(2) whole, of rate_data util] charges
    unfolding charges_def [symmetric] hours_def [symmetric]
    by (auto simp: map_result_def split: sum.splits)
  have "96 dvd length ts" using whole by (simp add: mod_eq_0_iff_dvd)
  then have ndays: "0 < length ts div 96"
    using assms(4) by (cases "length ts div 96 = 0") auto
  have len: "length ts = 96 * (length ts div 96)"
    using whole by (simp add: whole_days)
  have "length hours = length ts"
    unfolding hours_def using len by (simp add: length_np_tile)
  then have hs: "hours \<noteq> []" using assms(4) by auto
  have present: "\<forall>l \<in> set (np_unique (map (\<lambda>(idx, c). basic_charge_limit c) charges)).
      filter (\<lambda>(idx, c). basic_charge_limit c = l) charges \<noteq> []"
    by (auto simp: np_unique_def filter_empty_conv)
  have "map fst table = np_unique (map (\<lambda>(idx, c). basic_charge_limit c) charges)"
    using tiers_loop_keys [OF loop _ ndays _ _ hs present] assms(4) by simp
  then have keys: "map fst table
       = sort (remdups (map basic_charge_limit
           (filter (\<lambda>c. type c = charge_type \<and> utility c = util) rate_data)))"
    by (simp add: np_unique_def charges_def charges_of_filter)
  show ?thesis
    unfolding keys by simp
qed

theorem table_keys_sorted_distinct_witness:
  "get_charge_array (WithDateTime (one_day 1 4))
     [\<lparr>utility = ''electric'', type = ''energy'', period = ''all'', basic_charge_limit = 100,
       month_start = 1, month_end = 12, hour_start = 0, hour_end = 24,
       weekday_start = 0, weekday_end = 6, charge = 3\<rparr>,
      \<lparr>utility = ''electric'', type = ''energy'', period = ''all'', basic_charge_limit = 0,
       month_start = 1, month_end = 12, hour_start = 0, hour_end = 24,
       weekday_start = 0, weekday_end = 6, charge = 2\<rparr>] ''energy'' ''electric''
     = Inr (Structured [(0, Vec (replicate 96 2)), (100, Vec (replicate 96 3))])
   \<and> map fst [(0 :: rat, Vec (replicate 96 2)), (100, Vec (replicate 96 3))] = [0, 100]
   \<and> distinct (map fst [(0 :: rat, Vec (replicate 96 2)), (100, Vec (replicate 96 3))])
   \<and> sorted (map fst [(0 :: rat, Vec (replicate 96 2)), (100, Vec (replicate 96 3))])"
proof -
  let ?R = "[\<lparr>utility = ''electric'', type = ''energy'', period = ''all'', basic_charge_limit = 100,
       month_start = 1, month_end = 12, hour_start = 0, hour_end = 24,
       weekday_start = 0, weekday_end = 6, charge = 3\<rparr>,
      \<lparr>utility = ''electric'', type = ''energy'', period = ''all'', basic_charge_limit = 0,
       month_start = 1, month_end = 12, hour_start = 0, hour_end = 24,
       weekday_start = 0, weekday_end = 6, charge = 2\<rparr>]"
  have run: "get_charge_array (WithDateTime (one_day 1 4))
     ?R ''energy'' ''electric''
     = Inr (Structured [(0, Vec (replicate 96 2)), (100, Vec (replicate 96 3))])"
    by code_simp
  have some: "filter (\<lambda>c. type c = ''energy'' \<and> utility c = ''electric'') ?R \<noteq> []"
    by simp
  have window: "one_day 1 4 \<noteq> []"
    by (rule one_day_nonempty)
  from table_keys_sorted_distinct [OF run _ some window] run
  show ?thesis by simp
qed

end
